theory Spec2Isabelle
  imports Main "HOL-Library.Word"
begin

section \<open>The coroutine package as an interleaving of goroutine statements\<close>

text \<open>
  The package (\<^verbatim>\<open>embed.go\<close>, \<^verbatim>\<open>start.go\<close>) is a struct \<^verbatim>\<open>Embeddable\<close> shared between
  the goroutine that runs the coroutine body and any number of goroutines that hold
  the \<^verbatim>\<open>Ref\<close>. The model is a transition system: one step is one statement of one
  goroutine (a critical section of \<^verbatim>\<open>mailboxLock\<close> is one step, taken only when the
  mutex is free), and a schedule is the list of steps in the order they happen.

  What the model takes from outside the package:
  \<^item> memory is sequentially consistent;
  \<^item> \<^verbatim>\<open>time.Timer\<close> in both forms that the Go toolchain gives it (see \<open>timer_chan\<close>);
    durations are not measured: an armed timer may expire at any later step;
  \<^item> a \<^verbatim>\<open>panic(nil)\<close> is recovered as nil, as it is when the package is built as it
    stands, without a go.mod; where the toolchain turns it into a run-time error it
    is one of the other panic values;
  \<^item> the body is any sequence of calls of the methods of \<^verbatim>\<open>Embeddable\<close>, made by the
    coroutine's goroutine only, ended by a return or by a panic; it does not recover a
    panic raised by a method (start.go:8-11 asks it to pass \<open>Stop\<close> on).
\<close>

subsection \<open>Go values and runtime primitives\<close>

text \<open>Run-time panics that the statements of the package can raise.\<close>

datatype runtime_error = IndexOutOfRange | SendOnClosedChannel | CloseOfClosedChannel

text \<open>
  A panic value. \<open>NilPanic\<close> is the nil of \<^verbatim>\<open>panic(nil)\<close>. \<open>Stop\<close> is a value of the
  struct type \<^verbatim>\<open>Stop\<close> (start.go:12), the only one for which the type assertion
  \<^verbatim>\<open>e.(Stop)\<close> succeeds; \<open>Foreign v\<close> is any other non-nil value passed to \<^verbatim>\<open>panic\<close>.
  Messages and foreign panic values are both \<^verbatim>\<open>interface{}\<close> in the source and share
  the type parameter.
\<close>

datatype 'a panic = NilPanic | Stop | RuntimeError runtime_error | Foreign 'a

text \<open>
  The two timer channels of Go. \<open>Buffered\<close> (Go up to 1.22, and later with
  \<^verbatim>\<open>asynctimerchan=1\<close>): the channel has capacity one; when the timer expires the
  runtime takes it out, so that \<^verbatim>\<open>Stop()\<close> reports false from then on, and only afterwards
  makes a non-blocking send on the channel. \<open>Synchronous\<close> (Go 1.23 and later):
  \<^verbatim>\<open>len\<close> of the channel is always 0, and \<^verbatim>\<open>Stop()\<close> and \<^verbatim>\<open>Reset()\<close> throw away an
  expiration that has not been received and cancel a send that is on its way;
  \<^verbatim>\<open>Stop()\<close> reports true when it did either.
\<close>

datatype timer_chan = Buffered | Synchronous

text \<open>
  \<^verbatim>\<open>time.Timer\<close>: \<open>active\<close> says that the timer is armed and has not expired, \<open>C\<close> is
  the number of expirations waiting in its channel, \<open>sending\<close> the number of sends
  that the runtime still has to make for expirations that have happened.
\<close>

record Timer =
  active :: bool
  C :: nat
  sending :: nat

definition NewTimer :: "int \<Rightarrow> Timer" where
  "NewTimer d = \<lparr>active = True, C = 0, sending = 0\<rparr>"

primrec Timer_Stop :: "timer_chan \<Rightarrow> Timer \<Rightarrow> bool \<times> Timer" where
  "Timer_Stop Buffered t = (active t, t\<lparr>active := False\<rparr>)"
| "Timer_Stop Synchronous t =
     (active t \<or> sending t > 0 \<or> C t > 0, t\<lparr>active := False, C := 0, sending := 0\<rparr>)"

primrec Timer_Reset :: "timer_chan \<Rightarrow> Timer \<Rightarrow> int \<Rightarrow> Timer" where
  "Timer_Reset Buffered t d = t\<lparr>active := True\<rparr>"
| "Timer_Reset Synchronous t d = t\<lparr>active := True, C := 0, sending := 0\<rparr>"

text \<open>\<^verbatim>\<open>len(t.C)\<close>.\<close>

primrec Timer_len :: "timer_chan \<Rightarrow> Timer \<Rightarrow> nat" where
  "Timer_len Buffered t = C t"
| "Timer_len Synchronous t = 0"

text \<open>
  The timer expires: the runtime takes it out and owes it a send. The send itself,
  when nobody is parked on the channel: non-blocking, dropped when the channel is full.
\<close>

definition Timer_expire :: "Timer \<Rightarrow> Timer" where
  "Timer_expire t = t\<lparr>active := False, sending := sending t + 1\<rparr>"

definition Timer_send :: "Timer \<Rightarrow> Timer" where
  "Timer_send t = t\<lparr>C := (if C t < 1 then C t + 1 else C t), sending := sending t - 1\<rparr>"

text \<open>The unbuffered channel \<^verbatim>\<open>receiver\<close>; who waits on it is read off the task.\<close>

datatype chan = Open | Closed

subsection \<open>Control points\<close>

text \<open>The drain-then-reset protocol of a reused timer (embed.go:44-47 and 104-108).\<close>

datatype rearm = Rearm_stop | Rearm_len | Rearm_drain | Rearm_reset

text \<open>The statements of the deferred function of the wrapper (start.go:58-62, 105-109).\<close>

datatype cleanup = SetNotRunning | StopWaitTimer | StopReceiveTimer | CloseReceiver

text \<open>
  Where the coroutine's goroutine is. \<open>Body\<close> is user code between two calls of the
  package. \<open>Deferred c r\<close> and \<open>Recover r\<close> are inside the deferred function, where
  \<open>r\<close> is what \<^verbatim>\<open>recover()\<close> will return (\<open>None\<close> for nil: the body returned).
  \<open>Exited r\<close>: the goroutine is over, silently (\<open>None\<close>) or with the panic \<open>r\<close>
  raised again.
\<close>

datatype 'a pc =
    Body
  | Pause_check int
  | Pause_rearm rearm int
  | Pause_wait
  | Pause_parked
  | Pause_recheck
  | Recv_check
  | Recv_lock
  | Recv_park
  | Recv_parked
  | Recv_recheck
  | Recv_relock
  | RecvFor_check int
  | RecvFor_lock int
  | RecvFor_rearm rearm int
  | RecvFor_select
  | RecvFor_parked
  | RecvFor_recheck
  | RecvFor_relock
  | RecvImmediate_check
  | RecvImmediate_lock
  | Stop_check
  | Stop_set
  | Deferred cleanup "'a panic option"
  | Recover "'a panic option"
  | Exited "'a panic option"

text \<open>Where a goroutine that holds the \<^verbatim>\<open>Ref\<close> is (embed.go:188-233).\<close>

datatype 'a ext_pc =
    Idle
  | Send_lock 'a
  | Send_select
  | RefStop_check
  | RefStop_set
  | RefStop_select
  | Panicked runtime_error

subsection \<open>State\<close>

text \<open>The struct \<^verbatim>\<open>Embeddable\<close> (embed.go:18-27); \<open>mailboxLock\<close> is true when held.\<close>

record 'a Embeddable =
  id' :: "64 word"
  name :: string
  waitTimer :: Timer
  receiver :: chan
  receiveTimer :: Timer
  mailbox :: "'a list"
  mailboxLock :: bool
  running :: bool

text \<open>
  The struct, where every goroutine is, and the kind of timer channel of the toolchain
  that built the program.
\<close>

record 'a system = "'a Embeddable" +
  task :: "'a pc"
  ext :: "nat \<Rightarrow> 'a ext_pc"
  timers :: timer_chan

subsection \<open>Events and observable effects\<close>

datatype call = Pause int | Recv | RecvFor int | RecvImmediate | StopSelf

datatype 'a ref_call = Send 'a | StopRef

datatype timer_id = WaitTimer | ReceiveTimer

text \<open>
  What the scheduler picks: the body calls a method, returns or panics; the coroutine's
  goroutine runs its next statement; goroutine \<open>t\<close> calls a method of the \<^verbatim>\<open>Ref\<close> or runs
  its next statement; a timer expires; the runtime makes the send of an expiration.
\<close>

datatype 'a event =
    Call call
  | BodyReturn
  | BodyPanic "'a panic"
  | Actor
  | RefCall nat "'a ref_call"
  | Ext nat
  | Fire timer_id
  | Deliver timer_id

text \<open>
  What a step lets the outside see: a message appended to or taken from the mailbox,
  the return of a call, a line given to \<^verbatim>\<open>log.Printf\<close> (format, id, name), a statement of
  the cleanup, the end of the coroutine's goroutine, the return or the panic of a
  call on the \<^verbatim>\<open>Ref\<close>.
\<close>

datatype 'a label =
    Enqueued 'a
  | Delivered 'a
  | NoMessage
  | Resumed
  | Printf string "64 word" string
  | Ran cleanup
  | Exit "'a panic option"
  | Ref_returned nat
  | Ref_panicked nat runtime_error

definition selfStopFormat :: string where
  "selfStopFormat =
     ''Coroutine [%v / %s] attempted to stop itself when it isn't running, possible bug found.''"

definition refStopFormat :: string where
  "refStopFormat =
     ''Coroutine [%v / %s] attempted to be stopped when it isn't running, possible bug found.''"

subsection \<open>Statements of the coroutine's goroutine\<close>

text \<open>\<^verbatim>\<open>panic(p)\<close> in the body or in a method: the deferred function of the wrapper starts.\<close>

definition unwind :: "'a panic \<Rightarrow> 'a system \<Rightarrow> 'a system" where
  "unwind p s = s\<lparr>task := Deferred SetNotRunning (Some p)\<rparr>"

text \<open>
  One statement of \<^verbatim>\<open>if !t.Stop() && len(t.C) > 0 { <-t.C }; t.Reset(d)\<close>. The result is
  the next statement (\<open>None\<close> after the reset) and the timer; the drain is a receive
  and can run only when the channel holds an expiration.
\<close>

primrec rearm_step ::
  "rearm \<Rightarrow> timer_chan \<Rightarrow> int \<Rightarrow> Timer \<Rightarrow> (rearm option \<times> Timer) option" where
  "rearm_step Rearm_stop m d t =
     (case Timer_Stop m t of (stopped, t') \<Rightarrow>
        Some (Some (if \<not> stopped then Rearm_len else Rearm_reset), t'))"
| "rearm_step Rearm_len m d t =
     Some (Some (if Timer_len m t > 0 then Rearm_drain else Rearm_reset), t)"
| "rearm_step Rearm_drain m d t =
     (if C t > 0 then Some (Some Rearm_reset, t\<lparr>C := C t - 1\<rparr>) else None)"
| "rearm_step Rearm_reset m d t = Some (None, Timer_Reset m t d)"

text \<open>
  The head of the mailbox is taken inside a critical section. \<open>take_head\<close> is
  \<^verbatim>\<open>r := e.mailbox[0]; e.mailbox = e.mailbox[1:]; e.mailboxLock.Unlock(); return r\<close>
  (embed.go:79-82): on an empty mailbox the index panics while the mutex is held.
\<close>

definition take_head :: "'a system \<Rightarrow> 'a label list \<times> 'a system" where
  "take_head s =
     (case mailbox s of
        [] \<Rightarrow> ([], unwind (RuntimeError IndexOutOfRange) (s\<lparr>mailboxLock := True\<rparr>))
      | r # rest \<Rightarrow> ([Delivered r], s\<lparr>mailbox := rest, task := Body\<rparr>))"

text \<open>
  \<^verbatim>\<open>if len(e.mailbox) == 0 { unlock; return nil, false }\<close> before the head is taken
  (embed.go:121-129, 143-151).
\<close>

definition take_head_or_none :: "'a system \<Rightarrow> 'a label list \<times> 'a system" where
  "take_head_or_none s =
     (case mailbox s of
        [] \<Rightarrow> ([NoMessage], s\<lparr>task := Body\<rparr>)
      | r # rest \<Rightarrow> ([Delivered r], s\<lparr>mailbox := rest, task := Body\<rparr>))"

text \<open>
  \<^verbatim>\<open>if e := recover(); e != nil { if _, ok := e.(Stop); ok { } else { panic(e) } }\<close>
  (start.go:64-71): what leaves the goroutine when \<open>r\<close> is pending. \<^verbatim>\<open>recover()\<close> gives nil
  after a return and after \<^verbatim>\<open>panic(nil)\<close>.
\<close>

definition reraised :: "'a panic option \<Rightarrow> 'a panic option" where
  "reraised r =
     (case r of
        None \<Rightarrow> None
      | Some NilPanic \<Rightarrow> None
      | Some Stop \<Rightarrow> None
      | Some p \<Rightarrow> Some p)"

text \<open>
  The deferred function up to \<^verbatim>\<open>recover()\<close> (start.go:58-62): closing a channel that is
  already closed panics, and that panic ends the goroutine.
\<close>

primrec deferred_stmt ::
  "cleanup \<Rightarrow> 'a panic option \<Rightarrow> 'a system \<Rightarrow> ('a label list \<times> 'a system) option" where
  "deferred_stmt SetNotRunning r s =
     Some ([Ran SetNotRunning], s\<lparr>running := False, task := Deferred StopWaitTimer r\<rparr>)"
| "deferred_stmt StopWaitTimer r s =
     Some ([Ran StopWaitTimer],
           s\<lparr>waitTimer := snd (Timer_Stop (timers s) (waitTimer s)),
             task := Deferred StopReceiveTimer r\<rparr>)"
| "deferred_stmt StopReceiveTimer r s =
     Some ([Ran StopReceiveTimer],
           s\<lparr>receiveTimer := snd (Timer_Stop (timers s) (receiveTimer s)),
             task := Deferred CloseReceiver r\<rparr>)"
| "deferred_stmt CloseReceiver r s =
     (if receiver s = Closed
      then Some ([Exit (Some (RuntimeError CloseOfClosedChannel))],
                 s\<lparr>task := Exited (Some (RuntimeError CloseOfClosedChannel))\<rparr>)
      else Some ([Ran CloseReceiver], s\<lparr>receiver := Closed, task := Recover r\<rparr>))"

text \<open>
  The statement at a control point, one equation for each statement of embed.go:33-163
  and of the deferred function of start.go:55-72; \<open>None\<close> when the goroutine cannot run
  now (parked on a channel, waiting for the mutex, in user code, or over).
\<close>

primrec stmt :: "'a pc \<Rightarrow> 'a system \<Rightarrow> ('a label list \<times> 'a system) option" where
  "stmt Body s = None"
| "stmt (Pause_check d) s =
     Some ([], if \<not> running s then unwind Stop s else s\<lparr>task := Pause_rearm Rearm_stop d\<rparr>)"
| "stmt (Pause_rearm r d) s =
     (case rearm_step r (timers s) d (waitTimer s) of
        None \<Rightarrow> None
      | Some (r', t') \<Rightarrow>
          Some ([], s\<lparr>waitTimer := t',
                      task := (case r' of Some r'' \<Rightarrow> Pause_rearm r'' d | None \<Rightarrow> Pause_wait)\<rparr>))"
| "stmt Pause_wait s =
     Some ([], if C (waitTimer s) > 0
               then s\<lparr>waitTimer := (waitTimer s)\<lparr>C := C (waitTimer s) - 1\<rparr>,
                      task := Pause_recheck\<rparr>
               else s\<lparr>task := Pause_parked\<rparr>)"
| "stmt Pause_parked s = None"
| "stmt Pause_recheck s =
     Some (if \<not> running s then ([], unwind Stop s) else ([Resumed], s\<lparr>task := Body\<rparr>))"
| "stmt Recv_check s =
     Some ([], if \<not> running s then unwind Stop s else s\<lparr>task := Recv_lock\<rparr>)"
| "stmt Recv_lock s =
     (if mailboxLock s then None
      else if mailbox s = [] then Some ([], s\<lparr>task := Recv_park\<rparr>)
      else Some (take_head s))"
| "stmt Recv_park s =
     Some ([], s\<lparr>task := (if receiver s = Closed then Recv_recheck else Recv_parked)\<rparr>)"
| "stmt Recv_parked s = None"
| "stmt Recv_recheck s =
     Some ([], if \<not> running s then unwind Stop s else s\<lparr>task := Recv_relock\<rparr>)"
| "stmt Recv_relock s = (if mailboxLock s then None else Some (take_head s))"
| "stmt (RecvFor_check d) s =
     Some ([], if \<not> running s then unwind Stop s
               else if d \<le> 0 then s\<lparr>task := RecvImmediate_check\<rparr>
               else s\<lparr>task := RecvFor_lock d\<rparr>)"
| "stmt (RecvFor_lock d) s =
     (if mailboxLock s then None
      else if mailbox s = [] then Some ([], s\<lparr>task := RecvFor_rearm Rearm_stop d\<rparr>)
      else Some (take_head_or_none s))"
| "stmt (RecvFor_rearm r d) s =
     (case rearm_step r (timers s) d (receiveTimer s) of
        None \<Rightarrow> None
      | Some (r', t') \<Rightarrow>
          Some ([], s\<lparr>receiveTimer := t',
                      task := (case r' of Some r'' \<Rightarrow> RecvFor_rearm r'' d
                               | None \<Rightarrow> RecvFor_select)\<rparr>))"
| "stmt RecvFor_select s =
     Some ([], if C (receiveTimer s) > 0
               then s\<lparr>receiveTimer := (receiveTimer s)\<lparr>C := C (receiveTimer s) - 1\<rparr>,
                      task := RecvFor_recheck\<rparr>
               else if receiver s = Closed then s\<lparr>task := RecvFor_recheck\<rparr>
               else s\<lparr>task := RecvFor_parked\<rparr>)"
| "stmt RecvFor_parked s = None"
| "stmt RecvFor_recheck s =
     Some ([], if \<not> running s then unwind Stop s else s\<lparr>task := RecvFor_relock\<rparr>)"
| "stmt RecvFor_relock s = (if mailboxLock s then None else Some (take_head_or_none s))"
| "stmt RecvImmediate_check s =
     Some ([], if \<not> running s then unwind Stop s else s\<lparr>task := RecvImmediate_lock\<rparr>)"
| "stmt RecvImmediate_lock s = (if mailboxLock s then None else Some (take_head_or_none s))"
| "stmt Stop_check s =
     Some (if \<not> running s then [Printf selfStopFormat (id' s) (name s)] else [],
           s\<lparr>task := Stop_set\<rparr>)"
| "stmt Stop_set s = Some ([], unwind Stop (s\<lparr>running := False\<rparr>))"
| "stmt (Deferred c r) s = deferred_stmt c r s"
| "stmt (Recover r) s = Some ([Exit (reraised r)], s\<lparr>task := Exited (reraised r)\<rparr>)"
| "stmt (Exited r) s = None"

definition actor_step :: "'a system \<Rightarrow> ('a label list \<times> 'a system) option" where
  "actor_step s = stmt (task s) s"

subsection \<open>Statements of the goroutines that hold the Ref\<close>

text \<open>
  \<^verbatim>\<open>select { case r.e.receiver <- true: default: }\<close> (embed.go:195-198, 229-232). A send
  on a closed channel panics; the send goes through only when the coroutine is parked
  on the channel, which wakes it; otherwise the default case runs.
\<close>

definition notify :: "'a system \<Rightarrow> runtime_error + 'a system" where
  "notify s =
     (if receiver s = Closed then Inl SendOnClosedChannel
      else if task s = Recv_parked then Inr (s\<lparr>task := Recv_recheck\<rparr>)
      else if task s = RecvFor_parked then Inr (s\<lparr>task := RecvFor_recheck\<rparr>)
      else Inr s)"

definition select_step :: "nat \<Rightarrow> 'a system \<Rightarrow> ('a label list \<times> 'a system) option" where
  "select_step t s =
     (case notify s of
        Inl err \<Rightarrow> Some ([Ref_panicked t err], s\<lparr>ext := (ext s)(t := Panicked err)\<rparr>)
      | Inr s' \<Rightarrow> Some ([Ref_returned t], s'\<lparr>ext := (ext s')(t := Idle)\<rparr>))"

primrec ref_stmt :: "'a ext_pc \<Rightarrow> nat \<Rightarrow> 'a system \<Rightarrow> ('a label list \<times> 'a system) option" where
  "ref_stmt Idle t s = None"
| "ref_stmt (Send_lock v) t s =
     (if mailboxLock s then None
      else Some ([Enqueued v], s\<lparr>mailbox := mailbox s @ [v], ext := (ext s)(t := Send_select)\<rparr>))"
| "ref_stmt Send_select t s = select_step t s"
| "ref_stmt RefStop_check t s =
     (if \<not> running s
      then Some ([Printf refStopFormat (id' s) (name s), Ref_returned t],
                 s\<lparr>ext := (ext s)(t := Idle)\<rparr>)
      else Some ([], s\<lparr>ext := (ext s)(t := RefStop_set)\<rparr>))"
| "ref_stmt RefStop_set t s =
     Some ([], s\<lparr>running := False, ext := (ext s)(t := RefStop_select)\<rparr>)"
| "ref_stmt RefStop_select t s = select_step t s"
| "ref_stmt (Panicked err) t s = None"

definition ext_step :: "nat \<Rightarrow> 'a system \<Rightarrow> ('a label list \<times> 'a system) option" where
  "ext_step t s = ref_stmt (ext s t) t s"

subsection \<open>Timers expiring\<close>

text \<open>An armed timer expires: the runtime takes it out and will send on its channel.\<close>

primrec fire :: "timer_id \<Rightarrow> 'a system \<Rightarrow> ('a label list \<times> 'a system) option" where
  "fire WaitTimer s =
     (if \<not> active (waitTimer s) then None
      else Some ([], s\<lparr>waitTimer := Timer_expire (waitTimer s)\<rparr>))"
| "fire ReceiveTimer s =
     (if \<not> active (receiveTimer s) then None
      else Some ([], s\<lparr>receiveTimer := Timer_expire (receiveTimer s)\<rparr>))"

text \<open>
  The runtime makes a send that it owes. A coroutine parked on the timer's channel
  takes the expiration directly and is woken; otherwise the expiration goes into the
  channel if there is room.
\<close>

primrec deliver :: "timer_id \<Rightarrow> 'a system \<Rightarrow> ('a label list \<times> 'a system) option" where
  "deliver WaitTimer s =
     (if sending (waitTimer s) = 0 then None
      else if task s = Pause_parked
      then Some ([], s\<lparr>waitTimer := (waitTimer s)\<lparr>sending := sending (waitTimer s) - 1\<rparr>,
                       task := Pause_recheck\<rparr>)
      else Some ([], s\<lparr>waitTimer := Timer_send (waitTimer s)\<rparr>))"
| "deliver ReceiveTimer s =
     (if sending (receiveTimer s) = 0 then None
      else if task s = RecvFor_parked
      then Some ([], s\<lparr>receiveTimer := (receiveTimer s)\<lparr>sending := sending (receiveTimer s) - 1\<rparr>,
                       task := RecvFor_recheck\<rparr>)
      else Some ([], s\<lparr>receiveTimer := Timer_send (receiveTimer s)\<rparr>))"

subsection \<open>Steps and schedules\<close>

primrec entry :: "call \<Rightarrow> 'a pc" where
  "entry (Pause d) = Pause_check d"
| "entry Recv = Recv_check"
| "entry (RecvFor d) = RecvFor_check d"
| "entry RecvImmediate = RecvImmediate_check"
| "entry StopSelf = Stop_check"

primrec ref_entry :: "'a ref_call \<Rightarrow> 'a ext_pc" where
  "ref_entry (Send v) = Send_lock v"
| "ref_entry StopRef = RefStop_check"

primrec step :: "'a event \<Rightarrow> 'a system \<Rightarrow> ('a label list \<times> 'a system) option" where
  "step (Call c) s = (if task s = Body then Some ([], s\<lparr>task := entry c\<rparr>) else None)"
| "step BodyReturn s =
     (if task s = Body then Some ([], s\<lparr>task := Deferred SetNotRunning None\<rparr>) else None)"
| "step (BodyPanic p) s = (if task s = Body then Some ([], unwind p s) else None)"
| "step Actor s = actor_step s"
| "step (RefCall t c) s =
     (if ext s t = Idle then Some ([], s\<lparr>ext := (ext s)(t := ref_entry c)\<rparr>) else None)"
| "step (Ext t) s = ext_step t s"
| "step (Fire k) s = fire k s"
| "step (Deliver k) s = deliver k s"

text \<open>A schedule runs from left to right; \<open>None\<close> when one of its steps cannot run.\<close>

fun exec :: "'a event list \<Rightarrow> 'a system \<Rightarrow> ('a label list \<times> 'a system) option" where
  "exec [] s = Some ([], s)"
| "exec (ev # evs) s =
     (case step ev s of
        None \<Rightarrow> None
      | Some (ls, s') \<Rightarrow>
          (case exec evs s' of
             None \<Rightarrow> None
           | Some (ls', s'') \<Rightarrow> Some (ls @ ls', s'')))"

subsection \<open>Starting a coroutine\<close>

definition defaultName :: string where
  "defaultName = ''Default Coroutine Name''"

text \<open>No goroutine is inside a call on the \<^verbatim>\<open>Ref\<close>.\<close>

definition no_calls :: "nat \<Rightarrow> 'a ext_pc" where
  "no_calls t = Idle"

text \<open>
  \<^verbatim>\<open>StartName\<close> (start.go:88-125) initialises the struct it is given, takes the next
  identifier and starts the goroutine; the result is the system and the counter. The
  kind of timer channel is not chosen by the package: it is the first parameter.
\<close>

definition StartName ::
  "timer_chan \<Rightarrow> string \<Rightarrow> 'a Embeddable \<Rightarrow> 64 word \<Rightarrow> 'a system \<times> 64 word" where
  "StartName m nm e nextId =
     (\<lparr>id' = nextId, name = nm, waitTimer = NewTimer 0, receiver = Open,
       receiveTimer = NewTimer 0, mailbox = mailbox e, mailboxLock = mailboxLock e,
       running = True, task = Body, ext = no_calls, timers = m\<rparr>,
      nextId + 1)"

text \<open>\<^verbatim>\<open>StartFuncName\<close> (start.go:40-78) does the same on a new struct.\<close>

definition StartFuncName :: "timer_chan \<Rightarrow> string \<Rightarrow> 64 word \<Rightarrow> 'a system \<times> 64 word" where
  "StartFuncName m nm nextId =
     (\<lparr>id' = nextId, name = nm, waitTimer = NewTimer 0, receiver = Open,
       receiveTimer = NewTimer 0, mailbox = [], mailboxLock = False,
       running = True, task = Body, ext = no_calls, timers = m\<rparr>,
      nextId + 1)"

definition StartFunc :: "timer_chan \<Rightarrow> 64 word \<Rightarrow> 'a system \<times> 64 word" where
  "StartFunc m nextId = StartFuncName m defaultName nextId"

definition Start :: "timer_chan \<Rightarrow> 'a Embeddable \<Rightarrow> 64 word \<Rightarrow> 'a system \<times> 64 word" where
  "Start m e nextId = StartName m defaultName e nextId"

text \<open>
  A coroutine started by \<^verbatim>\<open>StartFuncName("worker", f)\<close> with the first identifier, in a
  program built with the timers the package was written for.
\<close>

definition worker :: "nat system" where
  "worker = fst (StartFuncName Buffered ''worker'' 1)"

subsection \<open>Vocabulary of the properties\<close>








text \<open>How many statements of the cleanup the goroutine has run.\<close>

definition progress :: "'a pc \<Rightarrow> nat" where
  "progress pc =
     (case pc of
        Deferred c r \<Rightarrow>
          (case c of SetNotRunning \<Rightarrow> 0 | StopWaitTimer \<Rightarrow> 1 | StopReceiveTimer \<Rightarrow> 2
           | CloseReceiver \<Rightarrow> 3)
      | Recover r \<Rightarrow> 4
      | Exited r \<Rightarrow> 4
      | _ \<Rightarrow> 0)"



text \<open>The part of a trace that belongs to the end of the goroutine, and what it must be.\<close>

definition is_teardown :: "'a label \<Rightarrow> bool" where
  "is_teardown l = (case l of Ran c \<Rightarrow> True | Exit r \<Rightarrow> True | _ \<Rightarrow> False)"

definition cleanup_script :: "'a label list" where
  "cleanup_script =
     [Ran SetNotRunning, Ran StopWaitTimer, Ran StopReceiveTimer, Ran CloseReceiver]"

definition exits :: "'a pc \<Rightarrow> 'a label list" where
  "exits pc = (case pc of Exited r \<Rightarrow> [Exit r] | _ \<Rightarrow> [])"

definition torn_down :: "'a system \<Rightarrow> bool" where
  "torn_down s \<longleftrightarrow>
     \<not> running s \<and> \<not> active (waitTimer s) \<and> \<not> active (receiveTimer s) \<and>
     receiver s = Closed"

text \<open>The state after the deferred function has run on \<open>s\<close> and the goroutine has ended.\<close>

definition finished :: "'a panic option \<Rightarrow> 'a system \<Rightarrow> 'a system" where
  "finished r s =
     s\<lparr>waitTimer := snd (Timer_Stop (timers s) (waitTimer s)), receiver := Closed,
       receiveTimer := snd (Timer_Stop (timers s) (receiveTimer s)), running := False,
       task := Exited r\<rparr>"

definition teardown_inv :: "'a label list \<Rightarrow> 'a system \<Rightarrow> bool" where
  "teardown_inv acc s \<longleftrightarrow>
     filter is_teardown acc = take (progress (task s)) cleanup_script @ exits (task s) \<and>
     (progress (task s) < 4 \<longrightarrow> receiver s = Open) \<and>
     (0 < progress (task s) \<longrightarrow> \<not> running s) \<and>
     (1 < progress (task s) \<longrightarrow> \<not> active (waitTimer s)) \<and>
     (2 < progress (task s) \<longrightarrow> \<not> active (receiveTimer s)) \<and>
     (3 < progress (task s) \<longrightarrow> receiver s = Closed)"

text \<open>The invariant of a deferred function that was entered with \<open>r\<close> pending.\<close>

definition pending_inv :: "'a panic option \<Rightarrow> 'a label list \<Rightarrow> 'a system \<Rightarrow> bool" where
  "pending_inv r acc s \<longleftrightarrow>
     (\<forall>x. Exit x \<in> set acc \<longrightarrow> x = reraised r) \<and>
     (case task s of
        Deferred c r' \<Rightarrow> r' = r \<and> receiver s = Open
      | Recover r' \<Rightarrow> r' = r
      | Exited r' \<Rightarrow> r' = reraised r
      | _ \<Rightarrow> False)"

text \<open>
  An armed timer with nothing of an earlier arming about it: no expiration in its
  channel and no send on its way.
\<close>

definition fresh :: "Timer \<Rightarrow> bool" where
  "fresh t \<longleftrightarrow> (active t \<longrightarrow> C t = 0 \<and> sending t = 0)"

definition sync_inv :: "'a system \<Rightarrow> bool" where
  "sync_inv s \<longleftrightarrow> timers s = Synchronous \<and> fresh (waitTimer s) \<and> fresh (receiveTimer s)"

section \<open>Properties\<close>

lemmas run_defs = actor_step_def ext_step_def select_step_def notify_def take_head_def
  take_head_or_none_def unwind_def Timer_expire_def Timer_send_def reraised_def

lemmas start_defs = worker_def StartFuncName_def StartName_def NewTimer_def no_calls_def


lemmas teardown_defs = teardown_inv_def progress_def exits_def is_teardown_def
  cleanup_script_def

subsection \<open>Invariants of schedules\<close>

lemma exec_trace_inv:
  assumes "exec evs s = Some (ls, s')" and "P acc s"
    and "\<And>ev acc s ls s'. P acc s \<Longrightarrow> step ev s = Some (ls, s') \<Longrightarrow> P (acc @ ls) s'"
  shows "P (acc @ ls) s'"
  using assms(1,2)
proof (induction evs arbitrary: s ls acc)
  case Nil
  then show ?case by simp
next
  case (Cons ev evs)
  then obtain l1 s1 l2 where a: "step ev s = Some (l1, s1)"
    and b: "exec evs s1 = Some (l2, s')" and c: "ls = l1 @ l2"
    by (auto split: option.splits)
  have "P (acc @ l1) s1" using assms(3)[OF Cons.prems(2) a] .
  from Cons.IH[OF b this] c show ?case by simp
qed

subsection \<open>Mailbox order\<close>










subsection \<open>The end of the goroutine\<close>

lemma actor_step_teardown_inv:
  assumes "teardown_inv acc s"
  shows "case actor_step s of None \<Rightarrow> True | Some (ls, s') \<Rightarrow> teardown_inv (acc @ ls) s'"
proof (cases "task s")
  case (Pause_rearm r d)
  with assms show ?thesis
    by (auto simp: actor_step_def teardown_defs split: option.splits)
next
  case (RecvFor_rearm r d)
  with assms show ?thesis
    by (auto simp: actor_step_def teardown_defs split: option.splits)
next
  case (Deferred c r)
  with assms show ?thesis
    by (cases c; cases "timers s") (auto simp: actor_step_def teardown_defs)
qed (use assms in \<open>auto simp: actor_step_def teardown_defs take_head_def
       take_head_or_none_def unwind_def split: list.splits\<close>)

lemma ext_step_teardown_inv:
  "teardown_inv acc s \<Longrightarrow>
     case ext_step t s of None \<Rightarrow> True | Some (ls, s') \<Rightarrow> teardown_inv (acc @ ls) s'"
  by (cases "ext s t") (auto simp: ext_step_def select_step_def notify_def teardown_defs)

lemma fire_teardown_inv:
  "teardown_inv acc s \<Longrightarrow>
     case fire k s of None \<Rightarrow> True | Some (ls, s') \<Rightarrow> teardown_inv (acc @ ls) s'"
  by (cases k) (auto simp: teardown_defs Timer_expire_def)

lemma deliver_teardown_inv:
  "teardown_inv acc s \<Longrightarrow>
     case deliver k s of None \<Rightarrow> True | Some (ls, s') \<Rightarrow> teardown_inv (acc @ ls) s'"
  by (cases k) (auto simp: teardown_defs Timer_send_def)

lemma step_teardown_inv:
  assumes "teardown_inv acc s" and "step ev s = Some (ls, s')"
  shows "teardown_inv (acc @ ls) s'"
proof (cases ev)
  case (Call c)
  with assms show ?thesis by (cases c) (auto simp: teardown_defs split: if_splits)
next
  case Actor
  with assms actor_step_teardown_inv[of acc s] show ?thesis by simp
next
  case (Ext t)
  with assms ext_step_teardown_inv[of acc s t] show ?thesis by simp
next
  case (Fire k)
  with assms fire_teardown_inv[of acc s k] show ?thesis by simp
next
  case (Deliver k)
  with assms deliver_teardown_inv[of acc s k] show ?thesis by simp
qed (use assms in \<open>auto simp: teardown_defs unwind_def split: if_splits\<close>)

lemma started_teardown_inv:
  "teardown_inv [] (fst (StartName m nm e i))" "teardown_inv [] (fst (StartFuncName m nm i))"
  by (simp_all add: teardown_defs StartName_def StartFuncName_def)

lemma started_teardown:
  assumes "s0 = fst (StartName m nm e i) \<or> s0 = fst (StartFuncName m nm i)"
    and "exec evs s0 = Some (ls, s)"
  shows "teardown_inv ls s"
proof -
  from assms(1) have "teardown_inv [] s0"
    using started_teardown_inv by auto
  from exec_trace_inv[where P = teardown_inv, OF assms(2) this] step_teardown_inv
  have "teardown_inv ([] @ ls) s" by blast
  then show ?thesis by simp
qed

lemma started_receiver_open:
  assumes "s0 = fst (StartName m nm e i) \<or> s0 = fst (StartFuncName m nm i)"
    and "exec evs s0 = Some (ls, s)" and "progress (task s) < 4"
  shows "receiver s = Open"
  using started_teardown[OF assms(1,2)] assms(3) by (simp add: teardown_inv_def)

lemma reraised_None [simp]: "reraised None = None"
  by (simp add: reraised_def)

text \<open>Once entered, the deferred function runs to the end of the goroutine.\<close>

lemma deferred_function_runs:
  assumes "task s = Deferred SetNotRunning r" and "receiver s = Open"
  shows "exec [Actor, Actor, Actor, Actor, Actor] s =
           Some (cleanup_script @ [Exit (reraised r)], finished (reraised r) s)"
  using assms by (simp add: run_defs cleanup_script_def finished_def)

text \<open>
  C3. In every schedule of a coroutine started by either Start function, with either
  kind of timer:
  \<^item> the cleanup statements and the end of the goroutine appear in the trace as a prefix
    of \<open>running = false\<close>, \<open>waitTimer.Stop()\<close>, \<open>receiveTimer.Stop()\<close>,
    \<open>close(receiver)\<close>, exit, each at most once and in this order; once the goroutine
    has exited, all five are there, each exactly once, the exit last, and the flag is
    false, both timers are stopped and the channel is closed;
  \<^item> a body that returns, or panics with any value \<open>p\<close>, enters the deferred function,
    and so does every unwind that a method starts; once entered, every statement of the
    deferred function can run whatever the other goroutines do, and run one after the
    other they are the whole script, ended by the exit.
\<close>

theorem cleanup_runs_exactly_once:
  assumes "s0 = fst (StartName m nm e i) \<or> s0 = fst (StartFuncName m nm i)"
    and "exec evs s0 = Some (ls, s)"
  shows "filter is_teardown ls = take (progress (task s)) cleanup_script @ exits (task s) \<and>
         (\<forall>r. task s = Exited r \<longrightarrow>
            filter is_teardown ls = cleanup_script @ [Exit r] \<and> torn_down s) \<and>
         (task s = Body \<longrightarrow>
            exec [BodyReturn, Actor, Actor, Actor, Actor, Actor] s =
              Some (cleanup_script @ [Exit None], finished None s) \<and>
            (\<forall>p. exec [BodyPanic p, Actor, Actor, Actor, Actor, Actor] s =
              Some (cleanup_script @ [Exit (reraised (Some p))], finished (reraised (Some p)) s))) \<and>
         (\<forall>r. task s = Deferred SetNotRunning r \<longrightarrow>
            exec [Actor, Actor, Actor, Actor, Actor] s =
              Some (cleanup_script @ [Exit (reraised r)], finished (reraised r) s)) \<and>
         (\<forall>c r. task s = Deferred c r \<or> task s = Recover r \<longrightarrow> step Actor s \<noteq> None)"
proof -
  have inv: "teardown_inv ls s"
    using started_teardown[OF assms] .
  have trace: "filter is_teardown ls = take (progress (task s)) cleanup_script @ exits (task s)"
    and fin: "\<forall>r. task s = Exited r \<longrightarrow>
            filter is_teardown ls = cleanup_script @ [Exit r] \<and> torn_down s"
    using inv by (auto simp: teardown_defs torn_down_def)
  have body: "exec [BodyReturn, Actor, Actor, Actor, Actor, Actor] s =
              Some (cleanup_script @ [Exit None], finished None s) \<and>
            (\<forall>p. exec [BodyPanic p, Actor, Actor, Actor, Actor, Actor] s =
              Some (cleanup_script @ [Exit (reraised (Some p))], finished (reraised (Some p)) s))"
    if b: "task s = Body"
  proof -
    from b have "progress (task s) < 4" by (simp add: progress_def)
    with inv have op: "receiver s = Open" by (simp add: teardown_inv_def)
    have "exec [Actor, Actor, Actor, Actor, Actor] (s\<lparr>task := Deferred SetNotRunning r\<rparr>) =
            Some (cleanup_script @ [Exit (reraised r)], finished (reraised r) s)" for r
      using deferred_function_runs[of "s\<lparr>task := Deferred SetNotRunning r\<rparr>" r] op
      by (simp add: finished_def)
    with b show ?thesis by (simp add: unwind_def)
  qed
  have entered: "exec [Actor, Actor, Actor, Actor, Actor] s =
              Some (cleanup_script @ [Exit (reraised r)], finished (reraised r) s)"
    if d: "task s = Deferred SetNotRunning r" for r
  proof -
    from d have "progress (task s) < 4" by (simp add: progress_def)
    with inv have "receiver s = Open" by (simp add: teardown_inv_def)
    with d show ?thesis by (rule deferred_function_runs)
  qed
  have enabled: "step Actor s \<noteq> None" if "task s = Deferred c r \<or> task s = Recover r" for c r
    using that by (cases c) (auto simp: actor_step_def)
  from trace fin body entered enabled show ?thesis by blast
qed

text \<open>
  A body that returns at once, a body that panics with 42, and a body that is stopped
  from outside while it waits in \<^verbatim>\<open>Recv\<close>: each ends after one run of the cleanup.
\<close>

theorem cleanup_runs_exactly_once_witness:
  "exec [BodyReturn, Actor, Actor, Actor, Actor, Actor] worker =
     Some ([Ran SetNotRunning, Ran StopWaitTimer, Ran StopReceiveTimer, Ran CloseReceiver,
            Exit None], finished None worker) \<and>
   exec [BodyPanic (Foreign 42), Actor, Actor, Actor, Actor, Actor] worker =
     Some ([Ran SetNotRunning, Ran StopWaitTimer, Ran StopReceiveTimer, Ran CloseReceiver,
            Exit (Some (Foreign 42))], finished (Some (Foreign 42)) worker) \<and>
   exec [Call Recv, Actor, Actor, Actor, RefCall 0 StopRef, Ext 0, Ext 0, Ext 0,
         Actor, Actor, Actor, Actor, Actor, Actor] worker =
     Some ([Ref_returned 0, Ran SetNotRunning, Ran StopWaitTimer, Ran StopReceiveTimer,
            Ran CloseReceiver, Exit None], finished None worker) \<and>
   torn_down (finished None worker)"
proof -
  have start: "worker = fst (StartName Buffered ''worker'' e 1) \<or>
               worker = fst (StartFuncName Buffered ''worker'' 1)" for e :: "nat Embeddable"
    by (simp add: worker_def)
  have idle: "exec [] worker = Some ([], worker)" and body: "task worker = Body"
    by (simp_all add: start_defs)
  have stop: "exec [Call Recv, Actor, Actor, Actor, RefCall 0 StopRef, Ext 0, Ext 0, Ext 0,
         Actor, Actor, Actor, Actor, Actor, Actor] worker =
     Some ([Ref_returned 0, Ran SetNotRunning, Ran StopWaitTimer, Ran StopReceiveTimer,
            Ran CloseReceiver, Exit None], finished None worker)"
    by (simp add: run_defs start_defs finished_def reraised_def fun_eq_iff)
  have ex: "task (finished None worker) = Exited None"
    by (simp add: finished_def)
  from cleanup_runs_exactly_once[OF start idle] body
       cleanup_runs_exactly_once[OF start stop] ex stop
  show ?thesis by (simp add: cleanup_script_def reraised_def)
qed

subsection \<open>Stop while the coroutine waits\<close>














subsection \<open>The wrapper's recover\<close>

lemma actor_step_pending_inv:
  assumes "pending_inv r acc s"
  shows "case actor_step s of None \<Rightarrow> True | Some (ls, s') \<Rightarrow> pending_inv r (acc @ ls) s'"
proof (cases "task s")
  case (Deferred c r')
  with assms show ?thesis
    by (cases c) (auto simp: actor_step_def pending_inv_def)
qed (use assms in \<open>auto simp: actor_step_def pending_inv_def\<close>)

lemma ext_step_pending_inv:
  "pending_inv r acc s \<Longrightarrow>
     case ext_step t s of None \<Rightarrow> True | Some (ls, s') \<Rightarrow> pending_inv r (acc @ ls) s'"
  by (cases "ext s t"; cases "task s")
     (auto simp: ext_step_def select_step_def notify_def pending_inv_def)

lemma fire_pending_inv:
  "pending_inv r acc s \<Longrightarrow>
     case fire k s of None \<Rightarrow> True | Some (ls, s') \<Rightarrow> pending_inv r (acc @ ls) s'"
  by (cases k; cases "task s") (auto simp: pending_inv_def)

lemma deliver_pending_inv:
  "pending_inv r acc s \<Longrightarrow>
     case deliver k s of None \<Rightarrow> True | Some (ls, s') \<Rightarrow> pending_inv r (acc @ ls) s'"
  by (cases k; cases "task s") (auto simp: pending_inv_def)

lemma step_pending_inv:
  assumes "pending_inv r acc s" and "step ev s = Some (ls, s')"
  shows "pending_inv r (acc @ ls) s'"
proof (cases ev)
  case Actor
  with assms actor_step_pending_inv[of r acc s] show ?thesis by simp
next
  case (Ext t)
  with assms ext_step_pending_inv[of r acc s t] show ?thesis by simp
next
  case (Fire k)
  with assms fire_pending_inv[of r acc s k] show ?thesis by simp
next
  case (Deliver k)
  with assms deliver_pending_inv[of r acc s k] show ?thesis by simp
next
  case (RefCall t c)
  with assms show ?thesis by (cases "task s") (auto simp: pending_inv_def split: if_splits)
qed (use assms in \<open>auto simp: pending_inv_def split: if_splits\<close>)

text \<open>
  C4, as stated, fails. A body that calls \<^verbatim>\<open>panic(nil)\<close> raises a panic value that is not
  the \<open>Stop\<close> value; \<^verbatim>\<open>recover()\<close> gives nil for it, the test \<^verbatim>\<open>e != nil\<close> (start.go:64)
  fails, and the goroutine ends silently: the panic is swallowed, not raised again.
\<close>

theorem panic_nil_is_swallowed_counterexample:
  "exec [BodyPanic NilPanic, Actor, Actor, Actor, Actor, Actor] worker =
     Some ([Ran SetNotRunning, Ran StopWaitTimer, Ran StopReceiveTimer, Ran CloseReceiver,
            Exit None], finished None worker)"
  by (simp add: run_defs start_defs finished_def reraised_def)

text \<open>
  C4, amended. Take a coroutine started by either Start function, at the moment its body
  has ended with \<open>r\<close> pending (\<open>None\<close>: it returned; \<open>Some p\<close>: it panicked with \<open>p\<close>).
  Left to itself, the deferred function runs the four cleanup statements and then ends
  the goroutine, and whatever the other goroutines and the timers do meanwhile the
  goroutine never ends in another way: silently when the body returned, when the panic
  value is \<open>Stop\<close> and when it is nil, and by raising \<open>p\<close> again for every other panic
  value \<open>p\<close>.
\<close>

theorem wrapper_suppresses_Stop_and_nil:
  assumes "s0 = fst (StartName m nm e i) \<or> s0 = fst (StartFuncName m nm i)"
    and "exec evs0 s0 = Some (ls0, s)"
    and "task s = Deferred SetNotRunning r"
  shows "exec [Actor, Actor, Actor, Actor, Actor] s =
           Some ([Ran SetNotRunning, Ran StopWaitTimer, Ran StopReceiveTimer, Ran CloseReceiver,
                  Exit (reraised r)], finished (reraised r) s) \<and>
         (\<forall>evs ls s'. exec evs s = Some (ls, s') \<longrightarrow>
            (\<forall>x. Exit x \<in> set ls \<longrightarrow> x = reraised r) \<and>
            (\<forall>x. task s' = Exited x \<longrightarrow> x = reraised r)) \<and>
         (reraised r = None \<longleftrightarrow> r = None \<or> r = Some NilPanic \<or> r = Some Stop) \<and>
         (reraised r \<noteq> None \<longrightarrow> reraised r = r)"
proof -
  from assms(3) have "progress (task s) < 4"
    by (simp add: progress_def)
  from started_receiver_open[OF assms(1,2) this] have open_s: "receiver s = Open" .
  from deferred_function_runs[OF assms(3) open_s]
  have run: "exec [Actor, Actor, Actor, Actor, Actor] s =
           Some ([Ran SetNotRunning, Ran StopWaitTimer, Ran StopReceiveTimer, Ran CloseReceiver,
                  Exit (reraised r)], finished (reraised r) s)"
    by (simp add: cleanup_script_def)
  from assms(3) open_s have init: "pending_inv r [] s"
    by (simp add: pending_inv_def)
  have later: "(\<forall>x. Exit x \<in> set ls \<longrightarrow> x = reraised r) \<and>
               (\<forall>x. task s' = Exited x \<longrightarrow> x = reraised r)"
    if "exec evs s = Some (ls, s')" for evs ls s'
  proof -
    from exec_trace_inv[where P = "pending_inv r", OF that init] step_pending_inv
    have "pending_inv r ([] @ ls) s'" by blast
    then show ?thesis by (auto simp: pending_inv_def)
  qed
  have which: "(reraised r = None \<longleftrightarrow> r = None \<or> r = Some NilPanic \<or> r = Some Stop) \<and>
               (reraised r \<noteq> None \<longrightarrow> reraised r = r)"
    by (auto simp: reraised_def split: option.splits panic.splits)
  from run later which show ?thesis by blast
qed

text \<open>A body that panics with 42 crashes with 42; a body that panics with \<open>Stop\<close> ends.\<close>

theorem wrapper_suppresses_Stop_and_nil_witness:
  "exec [Actor, Actor, Actor, Actor, Actor] (unwind (Foreign 42) worker) =
     Some ([Ran SetNotRunning, Ran StopWaitTimer, Ran StopReceiveTimer, Ran CloseReceiver,
            Exit (Some (Foreign 42))], finished (Some (Foreign 42)) worker) \<and>
   exec [Actor, Actor, Actor, Actor, Actor] (unwind Stop worker) =
     Some ([Ran SetNotRunning, Ran StopWaitTimer, Ran StopReceiveTimer, Ran CloseReceiver,
            Exit None], finished None worker)"
proof -
  have start: "worker = fst (StartName Buffered ''worker'' e 1) \<or>
               worker = fst (StartFuncName Buffered ''worker'' 1)" for e :: "nat Embeddable"
    by (simp add: worker_def)
  have a: "exec [BodyPanic p] worker = Some ([], unwind p worker)"
    and b: "task (unwind p worker) = Deferred SetNotRunning (Some p)"
    and c: "finished x (unwind p worker) = finished x worker" for p :: "nat panic" and x
    by (simp_all add: unwind_def start_defs finished_def)
  from wrapper_suppresses_Stop_and_nil[OF start a b, of "Foreign 42"]
       wrapper_suppresses_Stop_and_nil[OF start a b, of Stop] c
  show ?thesis by (simp add: reraised_def)
qed

subsection \<open>Reused timers\<close>

text \<open>
  A timer that has expired and has not been read: with a buffered channel its
  expiration is in the channel and \<^verbatim>\<open>Stop()\<close> reports false; with a synchronous channel
  \<^verbatim>\<open>len\<close> is 0 and \<^verbatim>\<open>Stop()\<close> reports true and throws the expiration away.
\<close>

lemma expired_unread_timer:
  "Timer_len Buffered (Timer_send (Timer_expire (NewTimer 0))) = 1"
  "Timer_Stop Buffered (Timer_send (Timer_expire (NewTimer 0))) =
     (False, \<lparr>active = False, C = 1, sending = 0\<rparr>)"
  "Timer_len Synchronous (Timer_send (Timer_expire (NewTimer 0))) = 0"
  "Timer_Stop Synchronous (Timer_send (Timer_expire (NewTimer 0))) =
     (True, \<lparr>active = False, C = 0, sending = 0\<rparr>)"
  by (simp_all add: NewTimer_def Timer_expire_def Timer_send_def)

lemma actor_step_sync_inv:
  assumes "sync_inv s"
  shows "case actor_step s of None \<Rightarrow> True | Some (ls, s') \<Rightarrow> sync_inv s'"
proof (cases "task s")
  case (Pause_rearm r d)
  with assms show ?thesis
    by (cases r) (auto simp: actor_step_def sync_inv_def fresh_def)
next
  case (RecvFor_rearm r d)
  with assms show ?thesis
    by (cases r) (auto simp: actor_step_def sync_inv_def fresh_def)
next
  case (Deferred c r)
  with assms show ?thesis
    by (cases c) (auto simp: actor_step_def sync_inv_def fresh_def)
qed (use assms in \<open>auto simp: actor_step_def sync_inv_def fresh_def take_head_def
       take_head_or_none_def unwind_def split: list.splits\<close>)

lemma ext_step_sync_inv:
  "sync_inv s \<Longrightarrow> case ext_step t s of None \<Rightarrow> True | Some (ls, s') \<Rightarrow> sync_inv s'"
  by (cases "ext s t") (auto simp: ext_step_def select_step_def notify_def sync_inv_def)

lemma fire_sync_inv:
  "sync_inv s \<Longrightarrow> case fire k s of None \<Rightarrow> True | Some (ls, s') \<Rightarrow> sync_inv s'"
  by (cases k) (auto simp: sync_inv_def fresh_def Timer_expire_def)

lemma deliver_sync_inv:
  "sync_inv s \<Longrightarrow> case deliver k s of None \<Rightarrow> True | Some (ls, s') \<Rightarrow> sync_inv s'"
  by (cases k) (auto simp: sync_inv_def fresh_def Timer_send_def)

lemma step_sync_inv:
  assumes "sync_inv s" and "step ev s = Some (ls, s')"
  shows "sync_inv s'"
proof (cases ev)
  case Actor
  with assms actor_step_sync_inv[of s] show ?thesis by simp
next
  case (Ext t)
  with assms ext_step_sync_inv[of s t] show ?thesis by simp
next
  case (Fire k)
  with assms fire_sync_inv[of s k] show ?thesis by simp
next
  case (Deliver k)
  with assms deliver_sync_inv[of s k] show ?thesis by simp
qed (use assms in \<open>auto simp: sync_inv_def unwind_def split: if_splits\<close>)

text \<open>
  With synchronous timer channels nothing of an earlier arming outlives
  \<^verbatim>\<open>Stop()\<close> and \<^verbatim>\<open>Reset()\<close>: in every schedule an armed timer has no expiration in
  its channel and no send on its way. The library sees to it; the test
  \<^verbatim>\<open>len(t.C) > 0\<close> of the package is never true there.
\<close>

lemma synchronous_timers_stay_fresh:
  assumes "s0 = fst (StartName Synchronous nm e i) \<or> s0 = fst (StartFuncName Synchronous nm i)"
    and "exec evs s0 = Some (ls, s)"
  shows "fresh (waitTimer s) \<and> fresh (receiveTimer s)"
proof -
  from assms(1) have "sync_inv s0"
    by (auto simp: sync_inv_def fresh_def StartName_def StartFuncName_def NewTimer_def)
  from exec_trace_inv[where P = "\<lambda>acc. sync_inv", OF assms(2) this] step_sync_inv
  have "sync_inv s" by blast
  then show ?thesis by (simp add: sync_inv_def)
qed

text \<open>
  C7 fails on the code, with the buffered timer channels it was written for. The
  coroutine calls \<^verbatim>\<open>RecvFor(10)\<close>, arms the receive timer and is woken by a message, 7,
  which it returns; the timer stays armed. It then expires: the runtime takes it out
  and still owes the send. The coroutine calls \<^verbatim>\<open>RecvFor(20)\<close>: \<^verbatim>\<open>Stop()\<close> reports false,
  \<^verbatim>\<open>len(e.receiveTimer.C)\<close> is 0, so nothing is drained, and \<^verbatim>\<open>Reset(20)\<close> arms the timer.
  Now the send of the earlier arming lands. The select takes it for the expiry of this
  call, and \<^verbatim>\<open>RecvFor(20)\<close> returns \<^verbatim>\<open>(nil, false)\<close> at once, while its own arming is still
  pending.
\<close>

theorem stale_expiration_ends_later_RecvFor:
  "exec [Call (RecvFor 10), Actor, Actor, Actor, Actor, Actor,
         RefCall 0 (Send 7), Ext 0, Ext 0, Actor, Actor,
         Fire ReceiveTimer,
         Call (RecvFor 20), Actor, Actor, Actor, Actor, Actor,
         Deliver ReceiveTimer, Actor, Actor, Actor] worker =
     Some ([Enqueued 7, Ref_returned 0, Delivered 7, NoMessage], worker) \<and>
   active (receiveTimer worker)"
  by (simp add: run_defs start_defs fun_eq_iff)

subsection \<open>RecvFor without a duration\<close>

text \<open>
  C6. With \<open>d \<le> 0\<close>, a call of \<^verbatim>\<open>RecvFor(d)\<close> that has run its first statement is in
  the state of a call of \<^verbatim>\<open>RecvImmediate()\<close> that has just been entered (when \<open>running\<close>
  is true) or that has just unwound with \<open>Stop\<close> (when it is false), and has shown
  nothing to the outside. So for every continuation of the schedule the two calls give
  the same trace and the same state: the same pair returned, the same mailbox, the same
  unwind, and no suspension, since \<^verbatim>\<open>RecvImmediate\<close> has none.
\<close>

theorem RecvFor_nonpositive_is_RecvImmediate:
  assumes "d \<le> 0" and "task s = Body"
  shows "exec (Call (RecvFor d) # Actor # evs) s =
         (if running s then exec (Call RecvImmediate # evs) s
          else exec (Call RecvImmediate # Actor # evs) s)"
  using assms by (simp add: actor_step_def unwind_def split: option.splits)

theorem RecvFor_nonpositive_is_RecvImmediate_witness:
  "(- 3 :: int) \<le> 0 \<and> task worker = Body \<and> running worker \<and>
   exec (Call (RecvFor (- 3)) # Actor # [Actor, Actor]) worker =
     exec (Call RecvImmediate # [Actor, Actor]) worker \<and>
   exec (Call RecvImmediate # [Actor, Actor]) worker = Some ([NoMessage], worker)"
proof -
  have a: "(- 3 :: int) \<le> 0" and b: "task worker = Body" and c: "running worker"
    by (simp_all add: start_defs)
  have "exec (Call RecvImmediate # [Actor, Actor]) worker = Some ([NoMessage], worker)"
    by (simp add: run_defs start_defs)
  with RecvFor_nonpositive_is_RecvImmediate[OF a b, of "[Actor, Actor]"] a b c
  show ?thesis by simp
qed

subsection \<open>Stop on a coroutine that is not running\<close>

text \<open>
  C9. Let \<open>running\<close> be false. A call of \<^verbatim>\<open>Stop()\<close> on the \<^verbatim>\<open>Ref\<close> by an idle goroutine
  runs to its return in two steps, gives \<^verbatim>\<open>log.Printf\<close> its format with the id and the
  name of the coroutine, and leaves the whole state as it was. A call of the
  coroutine's own \<^verbatim>\<open>Stop()\<close> from the body gives \<^verbatim>\<open>log.Printf\<close> its format with the id and
  the name, changes nothing but the control point, and unwinds with \<open>Stop\<close>, the
  cancellation signal, which is no failure: with the channel open the wrapper runs the
  cleanup and the goroutine ends silently. Neither call can block.
\<close>

theorem stop_when_not_running_is_logged:
  assumes "\<not> running s"
  shows "(ext s t = Idle \<longrightarrow>
            exec [RefCall t StopRef, Ext t] s =
              Some ([Printf refStopFormat (id' s) (name s), Ref_returned t], s)) \<and>
         (task s = Body \<longrightarrow>
            exec [Call StopSelf, Actor, Actor] s =
              Some ([Printf selfStopFormat (id' s) (name s)], unwind Stop s)) \<and>
         (task s = Body \<and> receiver s = Open \<longrightarrow>
            map_option fst
              (exec [Call StopSelf, Actor, Actor, Actor, Actor, Actor, Actor, Actor] s) =
              Some [Printf selfStopFormat (id' s) (name s), Ran SetNotRunning,
                    Ran StopWaitTimer, Ran StopReceiveTimer, Ran CloseReceiver, Exit None])"
  using assms by (simp add: run_defs fun_upd_idem)

theorem stop_when_not_running_is_logged_witness:
  "\<not> running (worker\<lparr>running := False\<rparr>) \<and>
   exec [RefCall 0 StopRef, Ext 0] (worker\<lparr>running := False\<rparr>) =
     Some ([Printf refStopFormat 1 ''worker'', Ref_returned 0], worker\<lparr>running := False\<rparr>) \<and>
   exec [Call StopSelf, Actor, Actor] (worker\<lparr>running := False\<rparr>) =
     Some ([Printf selfStopFormat 1 ''worker''],
           worker\<lparr>running := False, task := Deferred SetNotRunning (Some Stop)\<rparr>) \<and>
   map_option fst
     (exec [Call StopSelf, Actor, Actor, Actor, Actor, Actor, Actor, Actor]
        (worker\<lparr>running := False\<rparr>)) =
     Some [Printf selfStopFormat 1 ''worker'', Ran SetNotRunning, Ran StopWaitTimer,
           Ran StopReceiveTimer, Ran CloseReceiver, Exit None]"
proof -
  let ?s = "worker\<lparr>running := False\<rparr>"
  have a: "\<not> running ?s" by simp
  have b: "ext ?s 0 = Idle" "task ?s = Body" "receiver ?s = Open"
    "id' ?s = 1" "name ?s = ''worker''"
    by (simp_all add: start_defs)
  from stop_when_not_running_is_logged[OF a, of 0] a b show ?thesis
    by (simp add: unwind_def)
qed

subsection \<open>The flag and the mailbox after a wake\<close>

text \<open>
  C8, as stated, fails. The coroutine waits in \<^verbatim>\<open>Recv\<close>; goroutine 0 sends 7 and wakes
  it; the coroutine reads \<open>running\<close>, which is true; goroutine 1 calls \<^verbatim>\<open>Stop()\<close> and sets
  the flag to false. The coroutine is now before its critical section with the flag
  false, and its next statement hands 7 to the body: the read of the flag and the look
  at the mailbox are two steps, and a stop that lands between them does not win.
\<close>

theorem stop_between_recheck_and_dequeue_counterexample:
  "exec [Call Recv, Actor, Actor, Actor, RefCall 0 (Send 7), Ext 0, Ext 0, Actor,
         RefCall 1 StopRef, Ext 1, Ext 1] worker =
     Some ([Enqueued 7, Ref_returned 0],
           worker\<lparr>mailbox := [7], running := False, task := Recv_relock,
                  ext := no_calls(1 := RefStop_select)\<rparr>) \<and>
   step Actor (worker\<lparr>mailbox := [7], running := False, task := Recv_relock,
                     ext := no_calls(1 := RefStop_select)\<rparr>) =
     Some ([Delivered 7],
           worker\<lparr>running := False, ext := no_calls(1 := RefStop_select)\<rparr>)"
  by (simp add: run_defs start_defs fun_eq_iff)

text \<open>
  C8, amended. After a wake, \<^verbatim>\<open>Recv\<close> and \<^verbatim>\<open>RecvFor\<close> read \<open>running\<close> in a statement of
  its own, before the mutex is taken and whether or not it is free: when the flag is
  false the call unwinds with \<open>Stop\<close> and the mailbox is not touched; when it is true
  the call goes on to the critical section. The critical section looks at the mailbox
  only: what it does is the same whatever the flag has become since it was read.
\<close>

theorem recheck_outside_critical_section:
  "(task s = Recv_recheck \<longrightarrow>
      step Actor s = Some ([], if running s then s\<lparr>task := Recv_relock\<rparr> else unwind Stop s)) \<and>
   (task s = RecvFor_recheck \<longrightarrow>
      step Actor s =
        Some ([], if running s then s\<lparr>task := RecvFor_relock\<rparr> else unwind Stop s)) \<and>
   (task s = Recv_relock \<or> task s = RecvFor_relock \<longrightarrow>
      step Actor (s\<lparr>running := b\<rparr>) =
        map_option (\<lambda>(ls, s'). (ls, s'\<lparr>running := b\<rparr>)) (step Actor s))"
  by (auto simp: run_defs split: list.splits)

theorem recheck_outside_critical_section_witness:
  "step Actor (worker\<lparr>mailbox := [7], mailboxLock := True, running := False,
                      task := Recv_recheck\<rparr>) =
     Some ([], worker\<lparr>mailbox := [7], mailboxLock := True, running := False,
                      task := Deferred SetNotRunning (Some Stop)\<rparr>) \<and>
   step Actor (worker\<lparr>mailbox := [7], task := RecvFor_recheck\<rparr>) =
     Some ([], worker\<lparr>mailbox := [7], task := RecvFor_relock\<rparr>) \<and>
   step Actor (worker\<lparr>mailbox := [7], task := RecvFor_relock, running := False\<rparr>) =
     Some ([Delivered 7], worker\<lparr>task := Body, running := False\<rparr>)"
proof -
  let ?a = "worker\<lparr>mailbox := [7], mailboxLock := True, running := False,
                   task := Recv_recheck\<rparr>"
  let ?b = "worker\<lparr>mailbox := [7], task := RecvFor_recheck\<rparr>"
  let ?c = "worker\<lparr>mailbox := [7], task := RecvFor_relock\<rparr>"
  have a: "task ?a = Recv_recheck" "\<not> running ?a"
    and b: "task ?b = RecvFor_recheck" "running ?b"
    and c: "task ?c = Recv_relock \<or> task ?c = RecvFor_relock"
    by (simp_all add: start_defs)
  have d: "step Actor ?c = Some ([Delivered 7], worker\<lparr>task := Body\<rparr>)"
    by (simp add: run_defs start_defs)
  from recheck_outside_critical_section[of ?a] a
  have "step Actor ?a = Some ([], unwind Stop ?a)" by simp
  moreover from recheck_outside_critical_section[of ?b] b
  have "step Actor ?b = Some ([], ?b\<lparr>task := RecvFor_relock\<rparr>)" by simp
  moreover from recheck_outside_critical_section[of ?c False] c d
  have "step Actor (?c\<lparr>running := False\<rparr>) =
          Some ([Delivered 7], worker\<lparr>task := Body, running := False\<rparr>)"
    by simp
  ultimately show ?thesis by (simp add: unwind_def)
qed

subsection \<open>Two races on the wake channel\<close>

text \<open>
  C10 fails on the code. Goroutine 0 calls \<^verbatim>\<open>Send(7)\<close> and has appended 7 but not yet
  reached its select. The coroutine calls \<^verbatim>\<open>Recv\<close>, finds 7 and returns it. It calls
  \<^verbatim>\<open>Recv\<close> again, finds the mailbox empty and parks on the channel. Now the select of
  goroutine 0 runs and wakes it. The flag is true, the coroutine takes the mutex and
  evaluates \<^verbatim>\<open>e.mailbox[0]\<close> on the empty mailbox: the index panics, the cleanup runs and
  the wrapper raises the run-time error again.
\<close>

theorem stale_notify_indexes_empty_mailbox:
  "map_option fst
     (exec [RefCall 0 (Send 7), Ext 0, Call Recv, Actor, Actor,
            Call Recv, Actor, Actor, Actor, Ext 0, Actor, Actor,
            Actor, Actor, Actor, Actor, Actor] worker) =
     Some [Enqueued 7, Delivered 7, Ref_returned 0, Ran SetNotRunning, Ran StopWaitTimer,
           Ran StopReceiveTimer, Ran CloseReceiver, Exit (Some (RuntimeError IndexOutOfRange))]"
  by (simp add: run_defs start_defs)

text \<open>
  C1 fails on the code. The body returns, the cleanup closes the channel and the
  goroutine ends silently. A goroutine then calls \<^verbatim>\<open>Send(7)\<close>: 7 is appended, and the
  select sends on the closed channel, which panics in the sender.
\<close>

theorem send_on_terminated_actor_panics:
  "exec [BodyReturn, Actor, Actor, Actor, Actor, Actor, RefCall 0 (Send 7), Ext 0, Ext 0] worker =
     Some ([Ran SetNotRunning, Ran StopWaitTimer, Ran StopReceiveTimer, Ran CloseReceiver,
            Exit None, Enqueued 7, Ref_panicked 0 SendOnClosedChannel],
           worker\<lparr>waitTimer := \<lparr>active = False, C = 0, sending = 0\<rparr>, receiver := Closed,
                  receiveTimer := \<lparr>active = False, C = 0, sending = 0\<rparr>, mailbox := [7],
                  running := False, task := Exited None,
                  ext := no_calls(0 := Panicked SendOnClosedChannel)\<rparr>)"
  by (simp add: run_defs start_defs)

end
